theory Spec2Isabelle
  imports Main "HOL-Library.Word" "HOL-Library.Sublist"
begin

unbundle bit_operations_syntax

section \<open>Bytes, errors and outcomes\<close>

text \<open>
  The embedding follows \<^verbatim>\<open>opentimestamps/attestations.go\<close>. A Go \<^verbatim>\<open>[]byte\<close> and a Go
  \<^verbatim>\<open>string\<close> are both sequences of bytes; \<^verbatim>\<open>string(uri)\<close> copies the bytes unchanged.
\<close>

type_synonym byte = "8 word"

text \<open>
  Go \<^verbatim>\<open>error\<close> values. The first four are the conditions that section 7 of the
  specification names for the byte-stream reader, whose code is not part of the source
  file; \<open>Errorf\<close> is an error made by \<^verbatim>\<open>fmt.Errorf\<close> with the given message.
\<close>

datatype error =
    TruncatedInput
  | PayloadTooLarge
  | PayloadTooSmall
  | MalformedVarint
  | Errorf string

text \<open>
  A Go call either panics, or returns a non-nil \<^verbatim>\<open>error\<close>, or returns its value with a
  nil error. A panic is not an \<^verbatim>\<open>error\<close> value and no function of the file recovers
  from one, so it ends the whole call.
\<close>

datatype 'a outcome = Panic string | Err error | Ok 'a

section \<open>The byte-stream context\<close>

text \<open>
  A \<^verbatim>\<open>*deserializationContext\<close> is a cursor into a byte stream; its state is the
  sequence of bytes that are still unread. Every read takes the context and returns the
  context after the read; a failed read returns no context, since the specification does
  not say where the cursor of a failed read stands.
\<close>

type_synonym deserializationContext = "byte list"

text \<open>
  The reader of variable-length unsigned integers. The specification leaves its encoding
  to the stream reader (section 6: "varint width per the stream reader's own encoding, not
  redefined here"), so the functions below take the reader as their first argument and
  the theorems hold for every encoding.
\<close>

type_synonym varUintReader =
  "deserializationContext \<Rightarrow> error + (64 word \<times> deserializationContext)"

text \<open>
  Modelled from the spec: \<^verbatim>\<open>newDeserializationContext(bytes.NewBuffer(b))\<close> is missing from
  the source. Section 4.2, step 3: the payload bytes are wrapped "in a fresh, isolated
  bounded sub-stream (its own end-of-stream horizon, independent of the outer stream)".
\<close>

definition newDeserializationContext :: "byte list \<Rightarrow> deserializationContext" where
  "newDeserializationContext b = b"

text \<open>
  Modelled from the spec: \<^verbatim>\<open>readBytes\<close> is missing from the source. Section 6 calls it
  read-exact-N-bytes; section 7: \<open>TruncatedInput\<close> when "fewer bytes available than a
  fixed or declared-length read requires".
\<close>

definition readBytes ::
  "nat \<Rightarrow> deserializationContext \<Rightarrow> error + (byte list \<times> deserializationContext)" where
  "readBytes n ctx =
     (if length ctx < n then Inl TruncatedInput else Inr (take n ctx, drop n ctx))"

text \<open>
  Modelled from the spec: \<^verbatim>\<open>readVarBytes\<close> is missing from the source. Section 6 calls it
  read-size-bounded-byte-sequence(min, max); section 4.2, step 2: a length-prefixed byte
  sequence, which "fails with \<open>PayloadTooLarge\<close> if the declared length exceeds the bound,
  or \<open>TruncatedInput\<close> if fewer bytes are available than declared"; section 5: the bound
  is "enforced before allocation of the corresponding buffer", so the bound is checked
  before the bytes are read. The specification names no condition for a length below
  the minimum; both calls of the source pass the minimum 0, where there is none.
\<close>

definition readVarBytes ::
  "varUintReader \<Rightarrow> nat \<Rightarrow> nat \<Rightarrow> deserializationContext
     \<Rightarrow> error + (byte list \<times> deserializationContext)" where
  "readVarBytes readVarUint minLen maxLen ctx =
     (case readVarUint ctx of
        Inl err \<Rightarrow> Inl err
      | Inr (n, ctx') \<Rightarrow>
          if maxLen < unat n then Inl PayloadTooLarge
          else if unat n < minLen then Inl PayloadTooSmall
          else readBytes (unat n) ctx')"

text \<open>
  Modelled from the spec: \<^verbatim>\<open>assertEOF\<close> is missing from the source. Section 6 calls it
  assert-end-of-stream; section 4.2, step 5: it holds when the sub-stream is "fully
  exhausted".
\<close>

definition assertEOF :: "deserializationContext \<Rightarrow> bool" where
  "assertEOF ctx \<longleftrightarrow> ctx = []"

section \<open>Constants\<close>

definition attestationTagSize :: nat where
  "attestationTagSize = 8"

definition attestationMaxPayloadSize :: nat where
  "attestationMaxPayloadSize = 8192"

definition pendingAttestationMaxUriLength :: nat where
  "pendingAttestationMaxUriLength = 1000"

text \<open>
  The two tags are \<^verbatim>\<open>mustDecodeHex("0588960d73d71901")\<close> and
  \<^verbatim>\<open>mustDecodeHex("83dfe30d2ef90c8e")\<close>: the bytes that the hexadecimal digits spell.
\<close>

definition bitcoinAttestationTag :: "byte list" where
  "bitcoinAttestationTag = [0x05, 0x88, 0x96, 0x0d, 0x73, 0xd7, 0x19, 0x01]"

definition pendingAttestationTag :: "byte list" where
  "pendingAttestationTag = [0x83, 0xdf, 0xe3, 0x0d, 0x2e, 0xf9, 0x0c, 0x8e]"

section \<open>Attestation types\<close>

text \<open>
  The structs of the source. \<^verbatim>\<open>pendingAttestation\<close> and \<^verbatim>\<open>bitcoinAttestation\<close> embed
  \<^verbatim>\<open>baseAttestation\<close>, which record extension mirrors.
\<close>

record baseAttestation =
  tag :: "byte list"

record pendingAttestation = baseAttestation +
  uri :: "byte list"

record bitcoinAttestation = baseAttestation +
  height :: "64 word"

text \<open>
  A value of the interface \<^verbatim>\<open>attestation\<close> has one of three dynamic types: a pointer
  \<^verbatim>\<open>*pendingAttestation\<close>, a pointer \<^verbatim>\<open>*bitcoinAttestation\<close>, or an \<^verbatim>\<open>unknownAttestation\<close>
  struct (fields \<^verbatim>\<open>tag\<close> and \<^verbatim>\<open>bytes\<close>) held by value. A pointer is an index into the
  store of its type.
\<close>

datatype attestation =
    PendingPtr nat
  | BitcoinPtr nat
  | UnknownAttestation (utag: "byte list") (ubytes: "byte list")

text \<open>
  The memory that the package owns: the allocated \<^verbatim>\<open>pendingAttestation\<close> and
  \<^verbatim>\<open>bitcoinAttestation\<close> structs, and the package variable \<^verbatim>\<open>attestations\<close>. Allocation
  appends to a store, so a fresh pointer never aliases a live one.
\<close>

record globals =
  pendings :: "pendingAttestation list"
  bitcoins :: "bitcoinAttestation list"
  attestations :: "attestation list"

definition nilDereference :: string where
  "nilDereference = ''invalid memory address or nil pointer dereference''"

section \<open>Methods\<close>

definition baseAttestation_match :: "'a baseAttestation_scheme \<Rightarrow> byte list \<Rightarrow> bool" where
  "baseAttestation_match b t \<longleftrightarrow> tag b = t"

definition newPendingAttestation :: "globals \<Rightarrow> attestation \<times> globals" where
  "newPendingAttestation g =
     (PendingPtr (length (pendings g)),
      g\<lparr>pendings := pendings g @ [\<lparr>tag = pendingAttestationTag, uri = []\<rparr>]\<rparr>)"

definition pendingAttestation_match :: "pendingAttestation \<Rightarrow> byte list \<Rightarrow> bool" where
  "pendingAttestation_match p t \<longleftrightarrow> baseAttestation_match p t"

text \<open>
  \<^verbatim>\<open>ret := *p\<close> copies the struct behind the pointer into a new variable, the assignment
  writes the field of the copy, and \<^verbatim>\<open>&ret\<close> is a pointer to the copy.
\<close>

definition pendingAttestation_decode ::
  "varUintReader \<Rightarrow> nat \<Rightarrow> deserializationContext \<Rightarrow> globals
     \<Rightarrow> (attestation \<times> deserializationContext) outcome \<times> globals" where
  "pendingAttestation_decode readVarUint p ctx g =
     (case readVarBytes readVarUint 0 pendingAttestationMaxUriLength ctx of
        Inl err \<Rightarrow> (Err err, g)
      | Inr (uri_bytes, ctx') \<Rightarrow>
          if p < length (pendings g) then
            (let ret = pendings g ! p;
                 ret = ret\<lparr>uri := uri_bytes\<rparr>
             in (Ok (PendingPtr (length (pendings g)), ctx'),
                 g\<lparr>pendings := pendings g @ [ret]\<rparr>))
          else (Panic nilDereference, g))"

definition newBitcoinAttestation :: "globals \<Rightarrow> attestation \<times> globals" where
  "newBitcoinAttestation g =
     (BitcoinPtr (length (bitcoins g)),
      g\<lparr>bitcoins := bitcoins g @ [\<lparr>tag = bitcoinAttestationTag, height = 0\<rparr>]\<rparr>)"

definition bitcoinAttestation_match :: "bitcoinAttestation \<Rightarrow> byte list \<Rightarrow> bool" where
  "bitcoinAttestation_match b t \<longleftrightarrow> baseAttestation_match b t"

definition bitcoinAttestation_decode ::
  "varUintReader \<Rightarrow> nat \<Rightarrow> deserializationContext \<Rightarrow> globals
     \<Rightarrow> (attestation \<times> deserializationContext) outcome \<times> globals" where
  "bitcoinAttestation_decode readVarUint b ctx g =
     (case readVarUint ctx of
        Inl err \<Rightarrow> (Err err, g)
      | Inr (h, ctx') \<Rightarrow>
          if b < length (bitcoins g) then
            (let ret = bitcoins g ! b;
                 ret = ret\<lparr>height := h\<rparr>
             in (Ok (BitcoinPtr (length (bitcoins g)), ctx'),
                 g\<lparr>bitcoins := bitcoins g @ [ret]\<rparr>))
          else (Panic nilDereference, g))"

text \<open>
  The calls \<^verbatim>\<open>a.match(tag)\<close> and \<^verbatim>\<open>a.decode(attCtx)\<close> on an interface value run the
  method of its dynamic type. The methods of \<^verbatim>\<open>unknownAttestation\<close> panic. Calling a
  method through a pointer reads the struct behind it; a pointer to no struct of the
  store stands for Go's nil pointer, whose dereference panics. \<^verbatim>\<open>match\<close> returns a
  \<^verbatim>\<open>bool\<close> and no \<^verbatim>\<open>error\<close>, so its outcome is never \<open>Err\<close>.
\<close>

fun attestation_match :: "attestation \<Rightarrow> byte list \<Rightarrow> globals \<Rightarrow> bool outcome" where
  "attestation_match (PendingPtr p) t g =
     (if p < length (pendings g) then Ok (pendingAttestation_match (pendings g ! p) t)
      else Panic nilDereference)"
| "attestation_match (BitcoinPtr b) t g =
     (if b < length (bitcoins g) then Ok (bitcoinAttestation_match (bitcoins g ! b) t)
      else Panic nilDereference)"
| "attestation_match (UnknownAttestation ut ub) t g = Panic ''not implemented''"

fun attestation_decode ::
  "varUintReader \<Rightarrow> attestation \<Rightarrow> deserializationContext \<Rightarrow> globals
     \<Rightarrow> (attestation \<times> deserializationContext) outcome \<times> globals" where
  "attestation_decode readVarUint (PendingPtr p) ctx g =
     pendingAttestation_decode readVarUint p ctx g"
| "attestation_decode readVarUint (BitcoinPtr b) ctx g =
     bitcoinAttestation_decode readVarUint b ctx g"
| "attestation_decode readVarUint (UnknownAttestation ut ub) ctx g =
     (Panic ''not implemented'', g)"

section \<open>The registry and the dispatcher\<close>

text \<open>
  The initialiser of the package variable \<^verbatim>\<open>attestations\<close>: the pending prototype is
  allocated and listed first, the bitcoin prototype second.
\<close>

definition init_globals :: globals where
  "init_globals =
     (let g = \<lparr>pendings = [], bitcoins = [], attestations = []\<rparr>;
          (p, g) = newPendingAttestation g;
          (b, g) = newBitcoinAttestation g
      in g\<lparr>attestations := [p, b]\<rparr>)"

text \<open>
  The loop \<^verbatim>\<open>for _, a := range attestations\<close> of \<^verbatim>\<open>ParseAttestation\<close>, over the
  elements that are still to be visited. \<open>None\<close> is the normal end of the loop (no
  element matched); \<open>Some\<close> is a \<^verbatim>\<open>return\<close> or a panic inside the loop body.
\<close>

fun ParseAttestation_loop ::
  "varUintReader \<Rightarrow> byte list \<Rightarrow> deserializationContext \<Rightarrow> attestation list \<Rightarrow> globals
     \<Rightarrow> attestation outcome option \<times> globals" where
  "ParseAttestation_loop readVarUint t attCtx [] g = (None, g)"
| "ParseAttestation_loop readVarUint t attCtx (a # as) g =
     (case attestation_match a t g of
        Panic msg \<Rightarrow> (Some (Panic msg), g)
      | Err err \<Rightarrow> (Some (Err err), g)
      | Ok True \<Rightarrow>
          (case attestation_decode readVarUint a attCtx g of
             (Panic msg, g') \<Rightarrow> (Some (Panic msg), g')
           | (Err err, g') \<Rightarrow> (Some (Err err), g')
           | (Ok (att, attCtx'), g') \<Rightarrow>
               if \<not> assertEOF attCtx' then (Some (Err (Errorf ''expected EOF in attCtx'')), g')
               else (Some (Ok att), g'))
      | Ok False \<Rightarrow> ParseAttestation_loop readVarUint t attCtx as g)"

text \<open>
  \<^verbatim>\<open>ParseAttestation\<close> returns the attestation together with the outer context after the
  record, and the memory after the call.
\<close>

definition ParseAttestation ::
  "varUintReader \<Rightarrow> deserializationContext \<Rightarrow> globals
     \<Rightarrow> (attestation \<times> deserializationContext) outcome \<times> globals" where
  "ParseAttestation readVarUint ctx g =
     (case readBytes attestationTagSize ctx of
        Inl err \<Rightarrow> (Err err, g)
      | Inr (t, ctx1) \<Rightarrow>
          (case readVarBytes readVarUint 0 attestationMaxPayloadSize ctx1 of
             Inl err \<Rightarrow> (Err err, g)
           | Inr (attBytes, ctx2) \<Rightarrow>
               (let attCtx = newDeserializationContext attBytes
                in case ParseAttestation_loop readVarUint t attCtx (attestations g) g of
                     (Some (Panic msg), g') \<Rightarrow> (Panic msg, g')
                   | (Some (Err err), g') \<Rightarrow> (Err err, g')
                   | (Some (Ok att), g') \<Rightarrow> (Ok (att, ctx2), g')
                   | (None, g') \<Rightarrow> (Ok (UnknownAttestation t attBytes, ctx2), g'))))"

section \<open>Observations\<close>

text \<open>
  What a caller sees through a returned interface value: the struct behind a pointer,
  or the \<^verbatim>\<open>unknownAttestation\<close> itself.
\<close>

datatype attestation_value =
    PendingValue pendingAttestation
  | BitcoinValue bitcoinAttestation
  | UnknownValue "byte list" "byte list"
  | NilValue

fun load :: "globals \<Rightarrow> attestation \<Rightarrow> attestation_value" where
  "load g (PendingPtr p) =
     (if p < length (pendings g) then PendingValue (pendings g ! p) else NilValue)"
| "load g (BitcoinPtr b) =
     (if b < length (bitcoins g) then BitcoinValue (bitcoins g ! b) else NilValue)"
| "load g (UnknownAttestation ut ub) = UnknownValue ut ub"

text \<open>
  The observable result of a call: the panic, the error, or the attestation read in the
  memory after the call, with the outer context after the record.
\<close>

fun observe ::
  "(attestation \<times> deserializationContext) outcome \<times> globals
     \<Rightarrow> (attestation_value \<times> deserializationContext) outcome" where
  "observe (Panic msg, g) = Panic msg"
| "observe (Err err, g) = Err err"
| "observe (Ok (att, ctx), g) = Ok (load g att, ctx)"

text \<open>
  The registry as the package initialiser leaves it: the list holds the pending
  prototype and then the bitcoin prototype, each the first struct of its store, with
  its tag constant and a zero field.
\<close>

definition registry_intact :: "globals \<Rightarrow> bool" where
  "registry_intact g \<longleftrightarrow>
     attestations g = [PendingPtr 0, BitcoinPtr 0] \<and>
     0 < length (pendings g) \<and>
     pendings g ! 0 = \<lparr>tag = pendingAttestationTag, uri = []\<rparr> \<and>
     0 < length (bitcoins g) \<and>
     bitcoins g ! 0 = \<lparr>tag = bitcoinAttestationTag, height = 0\<rparr>"

section \<open>Memory across calls\<close>

text \<open>
  \<open>store_extends g g'\<close>: the package variable \<^verbatim>\<open>attestations\<close> is the same list in
  \<open>g'\<close> as in \<open>g\<close>, and every struct allocated in \<open>g\<close> is in \<open>g'\<close> at the same address
  with the same fields; \<open>g'\<close> may hold further structs.
\<close>

definition store_extends :: "globals \<Rightarrow> globals \<Rightarrow> bool" where
  "store_extends g g' \<longleftrightarrow>
     attestations g' = attestations g \<and>
     prefix (pendings g) (pendings g') \<and>
     prefix (bitcoins g) (bitcoins g')"

text \<open>
  The memories that a program can be in when it calls \<^verbatim>\<open>ParseAttestation\<close>: the one
  that package initialisation leaves, and the one after any call from such a memory, on
  any stream.
\<close>

inductive reachable :: "varUintReader \<Rightarrow> globals \<Rightarrow> bool" for readVarUint where
  reachable_init: "reachable readVarUint init_globals"
| reachable_call:
    "reachable readVarUint g \<Longrightarrow> reachable readVarUint (snd (ParseAttestation readVarUint ctx g))"

section \<open>A reader of variable-length integers\<close>

text \<open>
  Modelled from the spec: \<^verbatim>\<open>readVarUint\<close> is missing from the source, and the
  specification gives its encoding only through the scenario of section 8, where the
  bytes \<^verbatim>\<open>e8 07\<close> are the height 1000: groups of seven bits, the low group first, the
  top bit of a byte set when another byte follows. The stream ending inside the integer
  is \<open>TruncatedInput\<close>, a value that does not fit 64 bits is \<open>MalformedVarint\<close>. This
  reader is one instance of the parameter \<open>readVarUint\<close>; it is used to run the
  functions on concrete streams.
\<close>

fun leb128 :: "nat \<Rightarrow> nat \<Rightarrow> byte list \<Rightarrow> error + (nat \<times> byte list)" where
  "leb128 shift acc [] = Inl TruncatedInput"
| "leb128 shift acc (b # bs) =
     (let acc' = acc + unat (b AND 0x7f) * 2 ^ shift
      in if b AND 0x80 = 0 then Inr (acc', bs) else leb128 (shift + 7) acc' bs)"

definition readVarUint_leb128 :: varUintReader where
  "readVarUint_leb128 ctx =
     (case leb128 0 0 ctx of
        Inl err \<Rightarrow> Inl err
      | Inr (v, ctx') \<Rightarrow>
          if v < 2 ^ 64 then Inr (word_of_nat v, ctx') else Inl MalformedVarint)"

section \<open>Auxiliary facts\<close>

lemma readBytes_append: "length t = n \<Longrightarrow> readBytes n (t @ s) = Inr (t, s)"
  by (simp add: readBytes_def)

lemma readBytes_short: "length ctx < n \<Longrightarrow> readBytes n ctx = Inl TruncatedInput"
  by (simp add: readBytes_def)

lemma readVarBytes_ok:
  "rv s = Inr (n, p @ r) \<Longrightarrow> unat n = length p \<Longrightarrow> length p \<le> maxLen
     \<Longrightarrow> readVarBytes rv 0 maxLen s = Inr (p, r)"
  by (simp add: readVarBytes_def readBytes_def)

lemma readVarBytes_too_large:
  "rv s = Inr (n, r) \<Longrightarrow> maxLen < unat n \<Longrightarrow> readVarBytes rv minLen maxLen s = Inl PayloadTooLarge"
  by (simp add: readVarBytes_def)

lemma readVarBytes_truncated:
  "rv s = Inr (n, r) \<Longrightarrow> unat n \<le> maxLen \<Longrightarrow> length r < unat n
     \<Longrightarrow> readVarBytes rv 0 maxLen s = Inl TruncatedInput"
  by (simp add: readVarBytes_def readBytes_def)

lemma tags_differ: "pendingAttestationTag \<noteq> bitcoinAttestationTag"
  by (simp add: pendingAttestationTag_def bitcoinAttestationTag_def)

lemma loop_intact:
  assumes "registry_intact g"
  shows "ParseAttestation_loop rv t c (attestations g) g =
     (if t = pendingAttestationTag then
        (case pendingAttestation_decode rv 0 c g of
           (Panic msg, g') \<Rightarrow> (Some (Panic msg), g')
         | (Err err, g') \<Rightarrow> (Some (Err err), g')
         | (Ok (att, c'), g') \<Rightarrow>
             if \<not> assertEOF c' then (Some (Err (Errorf ''expected EOF in attCtx'')), g')
             else (Some (Ok att), g'))
      else if t = bitcoinAttestationTag then
        (case bitcoinAttestation_decode rv 0 c g of
           (Panic msg, g') \<Rightarrow> (Some (Panic msg), g')
         | (Err err, g') \<Rightarrow> (Some (Err err), g')
         | (Ok (att, c'), g') \<Rightarrow>
             if \<not> assertEOF c' then (Some (Err (Errorf ''expected EOF in attCtx'')), g')
             else (Some (Ok att), g'))
      else (None, g))"
  using assms tags_differ
  by (auto simp: registry_intact_def pendingAttestation_match_def bitcoinAttestation_match_def
      baseAttestation_match_def)

lemma store_extends_refl: "store_extends g g"
  by (simp add: store_extends_def)

lemma pendingAttestation_decode_extends:
  "pendingAttestation_decode rv p c g = (r, g') \<Longrightarrow> store_extends g g'"
  by (auto simp: pendingAttestation_decode_def store_extends_def Let_def
      split: sum.splits if_splits prod.splits)

lemma bitcoinAttestation_decode_extends:
  "bitcoinAttestation_decode rv b c g = (r, g') \<Longrightarrow> store_extends g g'"
  by (auto simp: bitcoinAttestation_decode_def store_extends_def Let_def
      split: sum.splits if_splits prod.splits)

lemma attestation_decode_extends:
  "attestation_decode rv a c g = (r, g') \<Longrightarrow> store_extends g g'"
  by (cases a)
    (auto simp: store_extends_refl
      dest: pendingAttestation_decode_extends bitcoinAttestation_decode_extends)

lemma loop_extends:
  "ParseAttestation_loop rv t c as g = (r, g') \<Longrightarrow> store_extends g g'"
proof (induction as)
  case Nil
  then show ?case by (simp add: store_extends_refl)
next
  case (Cons a as)
  show ?case
  proof (cases "attestation_match a t g")
    case (Panic msg)
    with Cons.prems show ?thesis by (simp add: store_extends_refl)
  next
    case (Err err)
    with Cons.prems show ?thesis by (simp add: store_extends_refl)
  next
    case (Ok m)
    show ?thesis
    proof (cases m)
      case False
      with Ok Cons show ?thesis by simp
    next
      case True
      obtain d gd where d: "attestation_decode rv a c g = (d, gd)"
        by (cases "attestation_decode rv a c g")
      then have "store_extends g gd" by (rule attestation_decode_extends)
      moreover have "g' = gd"
        using Cons.prems Ok True d
        by (auto split: outcome.splits prod.splits if_splits)
      ultimately show ?thesis by simp
    qed
  qed
qed

lemma ParseAttestation_extends: "store_extends g (snd (ParseAttestation rv ctx g))"
proof -
  have "store_extends g g'"
    if "ParseAttestation_loop rv t c (attestations g) g = (r, g')" for t c r g'
    using that by (rule loop_extends)
  then show ?thesis
    by (auto simp: ParseAttestation_def store_extends_refl Let_def
        split: sum.splits prod.splits option.splits outcome.splits)
qed

lemma registry_intact_extends:
  assumes "registry_intact g" and "store_extends g g'"
  shows "registry_intact g'"
proof -
  obtain ps where ps: "pendings g' = pendings g @ ps"
    using assms(2) by (auto simp: store_extends_def prefix_def)
  obtain bs where bs: "bitcoins g' = bitcoins g @ bs"
    using assms(2) by (auto simp: store_extends_def prefix_def)
  show ?thesis
    using assms ps bs by (simp add: registry_intact_def store_extends_def nth_append)
qed

lemma registry_intact_init: "registry_intact init_globals"
  by (simp add: registry_intact_def init_globals_def newPendingAttestation_def
      newBitcoinAttestation_def)


lemma reachable_registry_intact: "reachable rv g \<Longrightarrow> registry_intact g"
proof (induction rule: reachable.induct)
  case reachable_init
  show ?case by (rule registry_intact_init)
next
  case (reachable_call g ctx)
  then show ?case
    using ParseAttestation_extends registry_intact_extends by blast
qed

lemma pendingAttestation_decode_proto:
  assumes "registry_intact g"
  shows "pendingAttestation_decode rv 0 c g =
     (case readVarBytes rv 0 pendingAttestationMaxUriLength c of
        Inl err \<Rightarrow> (Err err, g)
      | Inr (u, c') \<Rightarrow>
          (Ok (PendingPtr (length (pendings g)), c'),
           g\<lparr>pendings := pendings g @ [\<lparr>tag = pendingAttestationTag, uri = u\<rparr>]\<rparr>))"
  using assms
  by (simp add: pendingAttestation_decode_def registry_intact_def split: sum.splits)

lemma bitcoinAttestation_decode_proto:
  assumes "registry_intact g"
  shows "bitcoinAttestation_decode rv 0 c g =
     (case rv c of
        Inl err \<Rightarrow> (Err err, g)
      | Inr (h, c') \<Rightarrow>
          (Ok (BitcoinPtr (length (bitcoins g)), c'),
           g\<lparr>bitcoins := bitcoins g @ [\<lparr>tag = bitcoinAttestationTag, height = h\<rparr>]\<rparr>))"
  using assms
  by (simp add: bitcoinAttestation_decode_def registry_intact_def split: sum.splits)


lemma observe_intact:
  assumes "registry_intact g" and "registry_intact g0"
  shows "observe (ParseAttestation rv ctx g) = observe (ParseAttestation rv ctx g0)"
proof (cases "readBytes attestationTagSize ctx")
  case (Inl err)
  then show ?thesis by (simp add: ParseAttestation_def)
next
  case (Inr r1)
  obtain t c1 where r1: "r1 = (t, c1)" by (cases r1)
  show ?thesis
  proof (cases "readVarBytes rv 0 attestationMaxPayloadSize c1")
    case (Inl err)
    with Inr r1 show ?thesis by (simp add: ParseAttestation_def)
  next
    case r2: (Inr r2)
    obtain pl c2 where p: "r2 = (pl, c2)" by (cases r2)
    consider "t = pendingAttestationTag" | "t = bitcoinAttestationTag"
      | "t \<noteq> pendingAttestationTag" "t \<noteq> bitcoinAttestationTag" by blast
    then show ?thesis
    proof cases
      case 1
      with Inr r1 r2 p show ?thesis
        by (simp add: ParseAttestation_def Let_def
            loop_intact [OF assms(1)] loop_intact [OF assms(2)]
            pendingAttestation_decode_proto [OF assms(1)]
            pendingAttestation_decode_proto [OF assms(2)]
            split: sum.splits prod.splits)
    next
      case 2
      with Inr r1 r2 p tags_differ show ?thesis
        by (simp add: ParseAttestation_def Let_def
            loop_intact [OF assms(1)] loop_intact [OF assms(2)]
            bitcoinAttestation_decode_proto [OF assms(1)]
            bitcoinAttestation_decode_proto [OF assms(2)]
            split: sum.splits prod.splits)
    next
      case 3
      with Inr r1 r2 p show ?thesis
        by (simp add: ParseAttestation_def Let_def
            loop_intact [OF assms(1)] loop_intact [OF assms(2)])
    qed
  qed
qed

lemma ParseAttestation_record:
  assumes "length t = 8"
    and "rv s = Inr (n, payload @ rest)"
    and "unat n = length payload" and "length payload \<le> 8192"
  shows "ParseAttestation rv (t @ s) g =
     (case ParseAttestation_loop rv t payload (attestations g) g of
        (Some (Panic msg), g') \<Rightarrow> (Panic msg, g')
      | (Some (Err err), g') \<Rightarrow> (Err err, g')
      | (Some (Ok att), g') \<Rightarrow> (Ok (att, rest), g')
      | (None, g') \<Rightarrow> (Ok (UnknownAttestation t payload, rest), g'))"
proof -
  have "readBytes attestationTagSize (t @ s) = Inr (t, s)"
    using assms(1) by (simp add: readBytes_append attestationTagSize_def)
  moreover have "readVarBytes rv 0 attestationMaxPayloadSize s = Inr (payload, rest)"
    using assms(2-4) by (simp add: readVarBytes_ok attestationMaxPayloadSize_def)
  ultimately show ?thesis
    by (simp add: ParseAttestation_def newDeserializationContext_def)
qed

text \<open>
  \<^verbatim>\<open>ParseAttestation\<close> in a memory whose registry is intact, with the loop and the two
  decoders unfolded.
\<close>

lemma ParseAttestation_intact:
  assumes "registry_intact g"
  shows "ParseAttestation rv ctx g =
     (case readBytes attestationTagSize ctx of
        Inl err \<Rightarrow> (Err err, g)
      | Inr (t, ctx1) \<Rightarrow>
          (case readVarBytes rv 0 attestationMaxPayloadSize ctx1 of
             Inl err \<Rightarrow> (Err err, g)
           | Inr (attBytes, ctx2) \<Rightarrow>
               if t = pendingAttestationTag then
                 (case readVarBytes rv 0 pendingAttestationMaxUriLength attBytes of
                    Inl err \<Rightarrow> (Err err, g)
                  | Inr (u, left) \<Rightarrow>
                      (if left \<noteq> [] then Err (Errorf ''expected EOF in attCtx'')
                       else Ok (PendingPtr (length (pendings g)), ctx2),
                       g\<lparr>pendings :=
                          pendings g @ [\<lparr>tag = pendingAttestationTag, uri = u\<rparr>]\<rparr>))
               else if t = bitcoinAttestationTag then
                 (case rv attBytes of
                    Inl err \<Rightarrow> (Err err, g)
                  | Inr (h, left) \<Rightarrow>
                      (if left \<noteq> [] then Err (Errorf ''expected EOF in attCtx'')
                       else Ok (BitcoinPtr (length (bitcoins g)), ctx2),
                       g\<lparr>bitcoins :=
                          bitcoins g @ [\<lparr>tag = bitcoinAttestationTag, height = h\<rparr>]\<rparr>))
               else (Ok (UnknownAttestation t attBytes, ctx2), g)))"
proof (cases "readBytes attestationTagSize ctx")
  case (Inl err)
  then show ?thesis by (simp add: ParseAttestation_def)
next
  case (Inr r1)
  obtain t c1 where r1: "r1 = (t, c1)" by (cases r1)
  show ?thesis
  proof (cases "readVarBytes rv 0 attestationMaxPayloadSize c1")
    case (Inl err)
    with Inr r1 show ?thesis by (simp add: ParseAttestation_def)
  next
    case r2: (Inr r2)
    obtain pl c2 where p: "r2 = (pl, c2)" by (cases r2)
    consider "t = pendingAttestationTag" | "t = bitcoinAttestationTag"
      | "t \<noteq> pendingAttestationTag" "t \<noteq> bitcoinAttestationTag" by blast
    then show ?thesis
    proof cases
      case 1
      with Inr r1 r2 p show ?thesis
        by (simp add: ParseAttestation_def newDeserializationContext_def
            loop_intact [OF assms] pendingAttestation_decode_proto [OF assms] assertEOF_def
            split: sum.splits prod.splits)
    next
      case 2
      with Inr r1 r2 p tags_differ show ?thesis
        by (simp add: ParseAttestation_def newDeserializationContext_def
            loop_intact [OF assms] bitcoinAttestation_decode_proto [OF assms] assertEOF_def
            split: sum.splits prod.splits)
    next
      case 3
      with Inr r1 r2 p show ?thesis
        by (simp add: ParseAttestation_def newDeserializationContext_def loop_intact [OF assms])
    qed
  qed
qed

lemma loop_skip:
  "\<forall>x \<in> set pre. attestation_match x t g = Ok False
     \<Longrightarrow> ParseAttestation_loop rv t c (pre @ as) g = ParseAttestation_loop rv t c as g"
  by (induction pre) simp_all

lemma loop_first:
  "attestation_match a t g = Ok True
     \<Longrightarrow> ParseAttestation_loop rv t c (a # post) g = ParseAttestation_loop rv t c [a] g"
  by simp

lemma ParseAttestation_no_panic:
  assumes "registry_intact g"
  shows "fst (ParseAttestation rv ctx g) \<noteq> Panic msg"
  by (simp add: ParseAttestation_intact [OF assms] split: sum.splits prod.splits)

lemma ParseAttestation_fresh:
  assumes "registry_intact g"
  shows "fst (ParseAttestation rv ctx g) = Ok (PendingPtr p, c)
      \<Longrightarrow> p = length (pendings g) \<and> p < length (pendings (snd (ParseAttestation rv ctx g)))"
    and "fst (ParseAttestation rv ctx g) = Ok (BitcoinPtr b, c)
      \<Longrightarrow> b = length (bitcoins g) \<and> b < length (bitcoins (snd (ParseAttestation rv ctx g)))"
  by (auto simp: ParseAttestation_intact [OF assms] split: sum.splits prod.splits if_splits)

lemma ParseAttestation_selects:
  assumes "registry_intact g"
    and "observe (ParseAttestation rv ctx g) = Ok (v, rest)"
  shows "case v of
           PendingValue p \<Rightarrow> take 8 ctx = pendingAttestationTag \<and> tag p = pendingAttestationTag
         | BitcoinValue b \<Rightarrow> take 8 ctx = bitcoinAttestationTag \<and> tag b = bitcoinAttestationTag
         | UnknownValue ut ub \<Rightarrow>
             ut = take 8 ctx \<and> ut \<noteq> pendingAttestationTag \<and> ut \<noteq> bitcoinAttestationTag
         | NilValue \<Rightarrow> False"
  using assms(2)
  by (auto simp: ParseAttestation_intact [OF assms(1)] readBytes_def attestationTagSize_def
      split: sum.splits prod.splits if_splits)

lemma length_pendingAttestationTag: "length pendingAttestationTag = 8"
  by (simp add: pendingAttestationTag_def)

lemma length_bitcoinAttestationTag: "length bitcoinAttestationTag = 8"
  by (simp add: bitcoinAttestationTag_def)

text \<open>The definitions that evaluate a call on a concrete stream.\<close>

lemmas eval_defs = ParseAttestation_def readBytes_def readVarBytes_def readVarUint_leb128_def
  attestationTagSize_def attestationMaxPayloadSize_def pendingAttestationMaxUriLength_def
  bitcoinAttestationTag_def pendingAttestationTag_def newDeserializationContext_def
  init_globals_def newPendingAttestation_def newBitcoinAttestation_def
  pendingAttestation_match_def bitcoinAttestation_match_def baseAttestation_match_def
  pendingAttestation_decode_def bitcoinAttestation_decode_def assertEOF_def

section \<open>Claims\<close>

text \<open>
  In the theorems below a record on the stream is written \<open>t @ s\<close>: the eight bytes
  \<open>t\<close> of the tag, then \<open>s\<close>, which starts with the length of the payload. The reader
  \<open>readVarUint\<close> reads that length \<open>n\<close> from \<open>s\<close> and leaves \<open>payload @ rest\<close>, where
  \<open>payload\<close> are the \<open>n\<close> declared bytes and \<open>rest\<close> is what follows the record.
\<close>

text \<open>
  C1. When the tag of a record is neither the bitcoin constant \<^verbatim>\<open>0588960d73d71901\<close> nor the
  pending constant \<^verbatim>\<open>83dfe30d2ef90c8e\<close>, and the declared payload of at most 8192 bytes
  is fully on the stream, \<^verbatim>\<open>ParseAttestation\<close> returns without error an
  \<^verbatim>\<open>unknownAttestation\<close> whose tag and bytes are exactly the tag and the payload that
  were read. The context is left after the record and the memory is unchanged. The
  memory \<open>g\<close> is any memory that the program can be in.
\<close>

theorem unknown_tag_roundtrip:
  assumes "reachable readVarUint g"
    and "length t = 8"
    and "t \<noteq> bitcoinAttestationTag" and "t \<noteq> pendingAttestationTag"
    and "readVarUint s = Inr (n, payload @ rest)"
    and "unat n = length payload" and "length payload \<le> 8192"
  shows "ParseAttestation readVarUint (t @ s) g = (Ok (UnknownAttestation t payload, rest), g)"
proof -
  have "registry_intact g"
    using assms(1) by (rule reachable_registry_intact)
  then have "ParseAttestation_loop readVarUint t payload (attestations g) g = (None, g)"
    using assms(3,4) by (simp add: loop_intact)
  then show ?thesis
    by (simp add: ParseAttestation_record [where rv = readVarUint and s = s, OF assms(2,5,6,7)])
qed

text \<open>
  The scenario of section 8 of the specification, followed by one more byte: tag
  \<^verbatim>\<open>ff ff ff ff ff ff ff ff\<close>, length \<^verbatim>\<open>03\<close>, payload \<^verbatim>\<open>61 62 63\<close>.
\<close>

theorem unknown_tag_roundtrip_witness:
  "ParseAttestation readVarUint_leb128
     ([0xff, 0xff, 0xff, 0xff, 0xff, 0xff, 0xff, 0xff] @ [0x03, 0x61, 0x62, 0x63, 0x2a])
     init_globals
   = (Ok (UnknownAttestation [0xff, 0xff, 0xff, 0xff, 0xff, 0xff, 0xff, 0xff]
            [0x61, 0x62, 0x63], [0x2a]), init_globals)"
proof -
  let ?t = "[0xff, 0xff, 0xff, 0xff, 0xff, 0xff, 0xff, 0xff] :: byte list"
  have len: "length ?t = 8" by simp
  have nb: "?t \<noteq> bitcoinAttestationTag" by (simp add: bitcoinAttestationTag_def)
  have np: "?t \<noteq> pendingAttestationTag" by (simp add: pendingAttestationTag_def)
  have rd: "readVarUint_leb128 [0x03, 0x61, 0x62, 0x63, 0x2a] = Inr (3, [0x61, 0x62, 0x63] @ [0x2a])"
    by (simp add: readVarUint_leb128_def)
  have n: "unat (3 :: 64 word) = length [0x61, 0x62, 0x63 :: byte]" by simp
  have le: "length [0x61, 0x62, 0x63 :: byte] \<le> 8192" by simp
  show ?thesis
    by (rule unknown_tag_roundtrip [where readVarUint = readVarUint_leb128
          and s = "[0x03, 0x61, 0x62, 0x63, 0x2a]", OF reachable_init len nb np rd n le])
qed

text \<open>
  C2. When the tag of a record matches a registered variant and the variant's decode of
  the payload sub-stream succeeds but leaves at least one byte unread in it,
  \<^verbatim>\<open>ParseAttestation\<close> fails with the error of its own that says that the end of the
  payload was expected (in the source the message is \<^verbatim>\<open>expected EOF in attCtx\<close>), which
  is none of the reader's conditions, and it does not return the decoded attestation. In
  particular a bitcoin record whose payload is a valid integer followed by more bytes
  fails this way.
\<close>

theorem trailing_payload_bytes:
  assumes "reachable readVarUint g"
    and "length t = 8"
    and "readVarUint s = Inr (n, payload @ rest)"
    and "unat n = length payload" and "length payload \<le> 8192"
  shows "(\<forall>a att left g'.
            a \<in> set (attestations g) \<and> attestation_match a t g = Ok True \<and>
            attestation_decode readVarUint a payload g = (Ok (att, left), g') \<and> left \<noteq> []
            \<longrightarrow> ParseAttestation readVarUint (t @ s) g
                  = (Err (Errorf ''expected EOF in attCtx''), g')) \<and>
         (\<forall>h extra.
            t = bitcoinAttestationTag \<and> readVarUint payload = Inr (h, extra) \<and> extra \<noteq> []
            \<longrightarrow> fst (ParseAttestation readVarUint (t @ s) g)
                  = Err (Errorf ''expected EOF in attCtx'')) \<and>
         Errorf ''expected EOF in attCtx''
           \<notin> {TruncatedInput, PayloadTooLarge, PayloadTooSmall, MalformedVarint}"
proof (intro conjI allI impI)
  fix a att left g'
  assume h: "a \<in> set (attestations g) \<and> attestation_match a t g = Ok True \<and>
    attestation_decode readVarUint a payload g = (Ok (att, left), g') \<and> left \<noteq> []"
  have regs: "attestations g = [PendingPtr 0, BitcoinPtr 0]"
    and pm: "attestation_match (PendingPtr 0) t g = Ok (t = pendingAttestationTag)"
    and bm: "attestation_match (BitcoinPtr 0) t g = Ok (t = bitcoinAttestationTag)"
    using reachable_registry_intact [OF assms(1)]
    by (auto simp: registry_intact_def pendingAttestation_match_def
        bitcoinAttestation_match_def baseAttestation_match_def)
  from h regs have "a = PendingPtr 0 \<or> a = BitcoinPtr 0" by auto
  then have "ParseAttestation_loop readVarUint t payload (attestations g) g
      = (Some (Err (Errorf ''expected EOF in attCtx'')), g')"
  proof
    assume a: "a = PendingPtr 0"
    with h pm have "t = pendingAttestationTag" by simp
    with h a regs pm show ?thesis by (simp add: assertEOF_def)
  next
    assume a: "a = BitcoinPtr 0"
    with h bm have "t = bitcoinAttestationTag" by simp
    with h a regs pm bm tags_differ show ?thesis by (simp add: assertEOF_def)
  qed
  then show "ParseAttestation readVarUint (t @ s) g = (Err (Errorf ''expected EOF in attCtx''), g')"
    by (simp add: ParseAttestation_record [where rv = readVarUint and s = s, OF assms(2-5)])
next
  fix h extra
  assume h: "t = bitcoinAttestationTag \<and> readVarUint payload = Inr (h, extra) \<and> extra \<noteq> []"
  then have "fst (ParseAttestation_loop readVarUint t payload (attestations g) g)
      = Some (Err (Errorf ''expected EOF in attCtx''))"
    using tags_differ
    by (simp add: loop_intact [OF reachable_registry_intact [OF assms(1)]]
        bitcoinAttestation_decode_proto [OF reachable_registry_intact [OF assms(1)]]
        assertEOF_def)
  then show "fst (ParseAttestation readVarUint (t @ s) g) = Err (Errorf ''expected EOF in attCtx'')"
    by (cases "ParseAttestation_loop readVarUint t payload (attestations g) g")
      (simp add: ParseAttestation_record [where rv = readVarUint and s = s, OF assms(2-5)])
next
  show "Errorf ''expected EOF in attCtx''
      \<notin> {TruncatedInput, PayloadTooLarge, PayloadTooSmall, MalformedVarint}"
    by simp
qed

text \<open>
  A bitcoin record whose payload is the integer 1000 (\<^verbatim>\<open>e8 07\<close>) and one more byte.
\<close>

theorem trailing_payload_bytes_witness:
  "ParseAttestation readVarUint_leb128
     (bitcoinAttestationTag @ [0x03, 0xe8, 0x07, 0x00]) init_globals
   = (Err (Errorf ''expected EOF in attCtx''),
      init_globals\<lparr>bitcoins :=
        bitcoins init_globals @ [\<lparr>tag = bitcoinAttestationTag, height = 1000\<rparr>]\<rparr>) \<and>
   fst (ParseAttestation readVarUint_leb128
     (bitcoinAttestationTag @ [0x03, 0xe8, 0x07, 0x00]) init_globals)
   = Err (Errorf ''expected EOF in attCtx'')"
proof -
  let ?g' = "init_globals\<lparr>bitcoins :=
    bitcoins init_globals @ [\<lparr>tag = bitcoinAttestationTag, height = 1000\<rparr>]\<rparr>"
  have len: "length bitcoinAttestationTag = 8" by (simp add: bitcoinAttestationTag_def)
  have rd: "readVarUint_leb128 [0x03, 0xe8, 0x07, 0x00] = Inr (3, [0xe8, 0x07, 0x00] @ [])"
    by (simp add: readVarUint_leb128_def)
  have n: "unat (3 :: 64 word) = length [0xe8, 0x07, 0x00 :: byte]" by simp
  have le: "length [0xe8, 0x07, 0x00 :: byte] \<le> 8192" by simp
  note inst = trailing_payload_bytes [where readVarUint = readVarUint_leb128
      and s = "[0x03, 0xe8, 0x07, 0x00]", OF reachable_init len rd n le]
  have pre: "BitcoinPtr 0 \<in> set (attestations init_globals) \<and>
      attestation_match (BitcoinPtr 0) bitcoinAttestationTag init_globals = Ok True \<and>
      attestation_decode readVarUint_leb128 (BitcoinPtr 0) [0xe8, 0x07, 0x00] init_globals
        = (Ok (BitcoinPtr 1, [0x00]), ?g') \<and>
      [0x00 :: byte] \<noteq> []"
    by (simp add: eval_defs)
  have pre2: "bitcoinAttestationTag = bitcoinAttestationTag \<and>
      readVarUint_leb128 [0xe8, 0x07, 0x00] = Inr (1000, [0x00]) \<and> [0x00 :: byte] \<noteq> []"
    by (simp add: readVarUint_leb128_def)
  from inst pre have "ParseAttestation readVarUint_leb128
       (bitcoinAttestationTag @ [0x03, 0xe8, 0x07, 0x00]) init_globals
     = (Err (Errorf ''expected EOF in attCtx''), ?g')"
    by blast
  moreover from inst pre2 have "fst (ParseAttestation readVarUint_leb128
       (bitcoinAttestationTag @ [0x03, 0xe8, 0x07, 0x00]) init_globals)
     = Err (Errorf ''expected EOF in attCtx'')"
    by blast
  ultimately show ?thesis by (rule conjI)
qed

text \<open>
  C3. When the declared length of the payload exceeds 8192, \<^verbatim>\<open>ParseAttestation\<close> fails
  with the too-large condition before any tag is matched and any variant decoded: the
  result is the same in every memory, whatever the registry holds, and the memory is
  unchanged. In every call that reaches the registry scan the payload was read in full
  first: the sub-stream given to the scan is the whole declared payload, of at most 8192
  bytes, and nothing else of the stream.
\<close>

theorem payload_too_large_before_dispatch:
  "(\<forall>t s n r. length t = 8 \<and> readVarUint s = Inr (n, r) \<and> 8192 < unat n
      \<longrightarrow> ParseAttestation readVarUint (t @ s) g = (Err PayloadTooLarge, g)) \<and>
   (\<forall>t ctx1 attBytes ctx2.
      readBytes attestationTagSize ctx = Inr (t, ctx1) \<and>
      readVarBytes readVarUint 0 attestationMaxPayloadSize ctx1 = Inr (attBytes, ctx2)
      \<longrightarrow> length attBytes \<le> 8192 \<and>
          (\<exists>n c. readVarUint ctx1 = Inr (n, c) \<and> length attBytes = unat n \<and>
                 c = attBytes @ ctx2) \<and>
          ParseAttestation readVarUint ctx g =
            (case ParseAttestation_loop readVarUint t attBytes (attestations g) g of
               (Some (Panic msg), g') \<Rightarrow> (Panic msg, g')
             | (Some (Err err), g') \<Rightarrow> (Err err, g')
             | (Some (Ok att), g') \<Rightarrow> (Ok (att, ctx2), g')
             | (None, g') \<Rightarrow> (Ok (UnknownAttestation t attBytes, ctx2), g')))"
proof (intro conjI allI impI)
  fix t s :: "byte list" and n :: "64 word" and r :: "byte list"
  assume h: "length t = 8 \<and> readVarUint s = Inr (n, r) \<and> 8192 < unat n"
  then have "readBytes attestationTagSize (t @ s) = Inr (t, s)"
    by (simp add: readBytes_append attestationTagSize_def)
  moreover from h have "readVarBytes readVarUint 0 attestationMaxPayloadSize s = Inl PayloadTooLarge"
    by (simp add: readVarBytes_too_large attestationMaxPayloadSize_def)
  ultimately show "ParseAttestation readVarUint (t @ s) g = (Err PayloadTooLarge, g)"
    by (simp add: ParseAttestation_def)
next
  fix t ctx1 attBytes ctx2
  assume h: "readBytes attestationTagSize ctx = Inr (t, ctx1) \<and>
      readVarBytes readVarUint 0 attestationMaxPayloadSize ctx1 = Inr (attBytes, ctx2)"
  then obtain n c where nc: "readVarUint ctx1 = Inr (n, c)"
    and le: "unat n \<le> 8192" and av: "unat n \<le> length c"
    and ab: "attBytes = take (unat n) c" and c2: "ctx2 = drop (unat n) c"
    by (auto simp: readVarBytes_def readBytes_def attestationMaxPayloadSize_def
        split: sum.splits if_splits)
  show "length attBytes \<le> 8192" using le av ab by simp
  show "\<exists>n c. readVarUint ctx1 = Inr (n, c) \<and> length attBytes = unat n \<and> c = attBytes @ ctx2"
    using nc av ab c2 by auto
  show "ParseAttestation readVarUint ctx g =
            (case ParseAttestation_loop readVarUint t attBytes (attestations g) g of
               (Some (Panic msg), g') \<Rightarrow> (Panic msg, g')
             | (Some (Err err), g') \<Rightarrow> (Err err, g')
             | (Some (Ok att), g') \<Rightarrow> (Ok (att, ctx2), g')
             | (None, g') \<Rightarrow> (Ok (UnknownAttestation t attBytes, ctx2), g'))"
    using h by (simp add: ParseAttestation_def newDeserializationContext_def)
qed

text \<open>
  A declared length of 8193 (\<^verbatim>\<open>81 40\<close>). With a registry that holds an
  \<^verbatim>\<open>unknownAttestation\<close>, whose \<^verbatim>\<open>match\<close> panics, the oversized record still fails with
  the too-large condition, while a record of a valid size reaches the scan and panics.
\<close>

theorem payload_too_large_before_dispatch_witness:
  "ParseAttestation readVarUint_leb128 (bitcoinAttestationTag @ [0x81, 0x40]) init_globals
     = (Err PayloadTooLarge, init_globals) \<and>
   ParseAttestation readVarUint_leb128 (bitcoinAttestationTag @ [0x81, 0x40])
     (init_globals\<lparr>attestations := [UnknownAttestation [] []]\<rparr>)
     = (Err PayloadTooLarge, init_globals\<lparr>attestations := [UnknownAttestation [] []]\<rparr>) \<and>
   ParseAttestation readVarUint_leb128 (bitcoinAttestationTag @ [0x02, 0xe8, 0x07])
     (init_globals\<lparr>attestations := [UnknownAttestation [] []]\<rparr>)
     = (Panic ''not implemented'', init_globals\<lparr>attestations := [UnknownAttestation [] []]\<rparr>)"
proof -
  let ?u = "init_globals\<lparr>attestations := [UnknownAttestation [] []]\<rparr>"
  have pre: "length bitcoinAttestationTag = 8 \<and>
      readVarUint_leb128 [0x81, 0x40] = Inr (8193, []) \<and> 8192 < unat (8193 :: 64 word)"
    by (simp add: readVarUint_leb128_def bitcoinAttestationTag_def)
  have a: "ParseAttestation readVarUint_leb128 (bitcoinAttestationTag @ [0x81, 0x40]) init_globals
      = (Err PayloadTooLarge, init_globals)"
    using pre payload_too_large_before_dispatch [where readVarUint = readVarUint_leb128
        and g = init_globals]
    by blast
  have b: "ParseAttestation readVarUint_leb128 (bitcoinAttestationTag @ [0x81, 0x40]) ?u
      = (Err PayloadTooLarge, ?u)"
    using pre payload_too_large_before_dispatch [where readVarUint = readVarUint_leb128
        and g = ?u]
    by blast
  have rb: "readBytes attestationTagSize (bitcoinAttestationTag @ [0x02, 0xe8, 0x07])
      = Inr (bitcoinAttestationTag, [0x02, 0xe8, 0x07]) \<and>
      readVarBytes readVarUint_leb128 0 attestationMaxPayloadSize [0x02, 0xe8, 0x07]
      = Inr ([0xe8, 0x07], [])"
    by (simp add: eval_defs)
  have lp: "ParseAttestation_loop readVarUint_leb128 bitcoinAttestationTag [0xe8, 0x07]
      (attestations ?u) ?u = (Some (Panic ''not implemented''), ?u)"
    by simp
  have c: "ParseAttestation readVarUint_leb128 (bitcoinAttestationTag @ [0x02, 0xe8, 0x07]) ?u
      = (Panic ''not implemented'', ?u)"
    using rb lp payload_too_large_before_dispatch [where readVarUint = readVarUint_leb128
        and g = ?u and ctx = "bitcoinAttestationTag @ [0x02, 0xe8, 0x07]"]
    by simp
  from a b c show ?thesis by simp
qed

text \<open>
  C7, as stated, fails: a record that declares a payload of 8193 bytes and has none of
  them is a stream "whose declared payload length exceeds the bytes actually available",
  and \<^verbatim>\<open>ParseAttestation\<close> fails on it with the too-large condition, not with a
  truncation, because the bound is checked before the bytes are read.
\<close>

theorem truncated_input_counterexample:
  "readVarUint_leb128 [0x81, 0x40] = Inr (8193, []) \<and>
   length ([] :: byte list) < unat (8193 :: 64 word) \<and>
   ParseAttestation readVarUint_leb128
     ([0xff, 0xff, 0xff, 0xff, 0xff, 0xff, 0xff, 0xff] @ [0x81, 0x40]) init_globals
   = (Err PayloadTooLarge, init_globals) \<and>
   Err PayloadTooLarge \<noteq> (Err TruncatedInput :: (attestation \<times> deserializationContext) outcome)"
  by (simp add: eval_defs)

text \<open>
  C7, amended. On a stream with fewer than 8 bytes at the start of a record, and on a
  stream whose declared payload length is at most 8192 and exceeds the bytes that follow
  it, \<^verbatim>\<open>ParseAttestation\<close> fails with the truncation condition and leaves the memory
  unchanged. The boundary is exact: reading the tag is truncated exactly when fewer than
  8 bytes remain, and reading a payload with a declared length within the bound is
  truncated exactly when fewer bytes than declared follow. A context is the sequence of
  the bytes that are available, so no read reaches beyond them.
\<close>

theorem truncated_input:
  "(length ctx < 8 \<longrightarrow> ParseAttestation readVarUint ctx g = (Err TruncatedInput, g)) \<and>
   (\<forall>t s n r. length t = 8 \<and> readVarUint s = Inr (n, r) \<and> unat n \<le> 8192 \<and> length r < unat n
      \<longrightarrow> ParseAttestation readVarUint (t @ s) g = (Err TruncatedInput, g)) \<and>
   (readBytes attestationTagSize ctx = Inl TruncatedInput \<longleftrightarrow> length ctx < 8) \<and>
   (\<forall>s n r. readVarUint s = Inr (n, r) \<and> unat n \<le> 8192
      \<longrightarrow> (readVarBytes readVarUint 0 attestationMaxPayloadSize s = Inl TruncatedInput
             \<longleftrightarrow> length r < unat n))"
proof (intro conjI allI impI)
  assume "length ctx < 8"
  then show "ParseAttestation readVarUint ctx g = (Err TruncatedInput, g)"
    by (simp add: ParseAttestation_def readBytes_short attestationTagSize_def)
next
  fix t s :: "byte list" and n :: "64 word" and r :: "byte list"
  assume h: "length t = 8 \<and> readVarUint s = Inr (n, r) \<and> unat n \<le> 8192 \<and> length r < unat n"
  then have "readBytes attestationTagSize (t @ s) = Inr (t, s)"
    by (simp add: readBytes_append attestationTagSize_def)
  moreover from h have "readVarBytes readVarUint 0 attestationMaxPayloadSize s = Inl TruncatedInput"
    by (simp add: readVarBytes_truncated attestationMaxPayloadSize_def)
  ultimately show "ParseAttestation readVarUint (t @ s) g = (Err TruncatedInput, g)"
    by (simp add: ParseAttestation_def)
next
  show "readBytes attestationTagSize ctx = Inl TruncatedInput \<longleftrightarrow> length ctx < 8"
    by (simp add: readBytes_def attestationTagSize_def)
next
  fix s :: "byte list" and n :: "64 word" and r :: "byte list"
  assume "readVarUint s = Inr (n, r) \<and> unat n \<le> 8192"
  then show "readVarBytes readVarUint 0 attestationMaxPayloadSize s = Inl TruncatedInput
      \<longleftrightarrow> length r < unat n"
    by (simp add: readVarBytes_def readBytes_def attestationMaxPayloadSize_def)
qed

text \<open>
  Seven bytes of a tag; a record that declares five payload bytes and has four; and the
  same four bytes under a declared length of four, which is not truncated.
\<close>

theorem truncated_input_witness:
  "ParseAttestation readVarUint_leb128 [0x05, 0x88, 0x96, 0x0d, 0x73, 0xd7, 0x19] init_globals
     = (Err TruncatedInput, init_globals) \<and>
   ParseAttestation readVarUint_leb128
     (bitcoinAttestationTag @ [0x05, 0x01, 0x02, 0x03, 0x04]) init_globals
     = (Err TruncatedInput, init_globals) \<and>
   readVarBytes readVarUint_leb128 0 attestationMaxPayloadSize [0x05, 0x01, 0x02, 0x03, 0x04]
     = Inl TruncatedInput \<and>
   readVarBytes readVarUint_leb128 0 attestationMaxPayloadSize [0x04, 0x01, 0x02, 0x03, 0x04]
     \<noteq> Inl TruncatedInput"
proof -
  note inst1 = truncated_input [where readVarUint = readVarUint_leb128
      and ctx = "[0x05, 0x88, 0x96, 0x0d, 0x73, 0xd7, 0x19]" and g = init_globals]
  have short: "length [0x05, 0x88, 0x96, 0x0d, 0x73, 0xd7, 0x19 :: byte] < 8" by simp
  have pre: "length bitcoinAttestationTag = 8 \<and>
      readVarUint_leb128 [0x05, 0x01, 0x02, 0x03, 0x04] = Inr (5, [0x01, 0x02, 0x03, 0x04]) \<and>
      unat (5 :: 64 word) \<le> 8192 \<and>
      length [0x01, 0x02, 0x03, 0x04 :: byte] < unat (5 :: 64 word)"
    by (simp add: readVarUint_leb128_def bitcoinAttestationTag_def)
  have pre4: "readVarUint_leb128 [0x04, 0x01, 0x02, 0x03, 0x04] = Inr (4, [0x01, 0x02, 0x03, 0x04]) \<and>
      unat (4 :: 64 word) \<le> 8192"
    by (simp add: readVarUint_leb128_def)
  have enough: "\<not> length [0x01, 0x02, 0x03, 0x04 :: byte] < unat (4 :: 64 word)" by simp
  from inst1 short
  have a: "ParseAttestation readVarUint_leb128 [0x05, 0x88, 0x96, 0x0d, 0x73, 0xd7, 0x19]
      init_globals = (Err TruncatedInput, init_globals)"
    by blast
  from inst1 pre
  have b: "ParseAttestation readVarUint_leb128
      (bitcoinAttestationTag @ [0x05, 0x01, 0x02, 0x03, 0x04]) init_globals
      = (Err TruncatedInput, init_globals)"
    by blast
  from inst1 pre
  have c: "readVarBytes readVarUint_leb128 0 attestationMaxPayloadSize
      [0x05, 0x01, 0x02, 0x03, 0x04] = Inl TruncatedInput"
    by blast
  from inst1 pre4 enough
  have d: "readVarBytes readVarUint_leb128 0 attestationMaxPayloadSize
      [0x04, 0x01, 0x02, 0x03, 0x04] \<noteq> Inl TruncatedInput"
    by blast
  from a b c d show ?thesis by simp
qed

text \<open>
  C4. A pending record whose payload is a length-prefixed byte sequence \<open>u\<close> of at most
  1000 bytes, with nothing after it, decodes to a \<^verbatim>\<open>pendingAttestation\<close> whose \<^verbatim>\<open>uri\<close> is
  \<open>u\<close>, byte for byte, and whose tag is the pending constant. The decode reads that one
  field: called through any valid pointer, it returns a copy of the struct behind the
  pointer with \<^verbatim>\<open>uri\<close> set to \<open>u\<close> and leaves the context at the first byte after \<open>u\<close>.
  When the declared length of the URI is 1001 or more, the pending decode fails with
  the too-large condition.
\<close>

theorem pending_uri:
  "(\<forall>s n payload rest m u.
      reachable readVarUint g \<and>
      readVarUint s = Inr (n, payload @ rest) \<and> unat n = length payload \<and>
      length payload \<le> 8192 \<and>
      readVarUint payload = Inr (m, u) \<and> unat m = length u \<and> length u \<le> 1000
      \<longrightarrow> observe (ParseAttestation readVarUint (pendingAttestationTag @ s) g)
            = Ok (PendingValue \<lparr>tag = pendingAttestationTag, uri = u\<rparr>, rest)) \<and>
   (\<forall>p c m u r.
      p < length (pendings g) \<and>
      readVarUint c = Inr (m, u @ r) \<and> unat m = length u \<and> length u \<le> 1000
      \<longrightarrow> observe (pendingAttestation_decode readVarUint p c g)
            = Ok (PendingValue ((pendings g ! p)\<lparr>uri := u\<rparr>), r)) \<and>
   (\<forall>p c m r.
      readVarUint c = Inr (m, r) \<and> 1000 < unat m
      \<longrightarrow> pendingAttestation_decode readVarUint p c g = (Err PayloadTooLarge, g))"
proof (intro conjI allI impI)
  fix s :: "byte list" and n :: "64 word" and payload rest :: "byte list"
    and m :: "64 word" and u :: "byte list"
  assume h: "reachable readVarUint g \<and>
      readVarUint s = Inr (n, payload @ rest) \<and> unat n = length payload \<and>
      length payload \<le> 8192 \<and>
      readVarUint payload = Inr (m, u) \<and> unat m = length u \<and> length u \<le> 1000"
  then have ri: "registry_intact g" by (blast intro: reachable_registry_intact)
  from h have "readVarUint payload = Inr (m, u @ [])" and "unat m = length u"
    and "length u \<le> pendingAttestationMaxUriLength"
    by (simp_all add: pendingAttestationMaxUriLength_def)
  then have rb: "readVarBytes readVarUint 0 pendingAttestationMaxUriLength payload = Inr (u, [])"
    by (rule readVarBytes_ok)
  have lp: "ParseAttestation_loop readVarUint pendingAttestationTag payload (attestations g) g
      = (Some (Ok (PendingPtr (length (pendings g)))),
         g\<lparr>pendings := pendings g @ [\<lparr>tag = pendingAttestationTag, uri = u\<rparr>]\<rparr>)"
    by (simp add: loop_intact [OF ri] pendingAttestation_decode_proto [OF ri] rb assertEOF_def)
  from h have "ParseAttestation readVarUint (pendingAttestationTag @ s) g
      = (Ok (PendingPtr (length (pendings g)), rest),
         g\<lparr>pendings := pendings g @ [\<lparr>tag = pendingAttestationTag, uri = u\<rparr>]\<rparr>)"
    by (simp add: lp ParseAttestation_record [where rv = readVarUint and s = s and n = n,
          OF length_pendingAttestationTag])
  then show "observe (ParseAttestation readVarUint (pendingAttestationTag @ s) g)
      = Ok (PendingValue \<lparr>tag = pendingAttestationTag, uri = u\<rparr>, rest)"
    by simp
next
  fix p :: nat and c :: "byte list" and m :: "64 word" and u r :: "byte list"
  assume h: "p < length (pendings g) \<and>
      readVarUint c = Inr (m, u @ r) \<and> unat m = length u \<and> length u \<le> 1000"
  then have "readVarBytes readVarUint 0 pendingAttestationMaxUriLength c = Inr (u, r)"
    by (simp add: readVarBytes_ok pendingAttestationMaxUriLength_def)
  with h show "observe (pendingAttestation_decode readVarUint p c g)
      = Ok (PendingValue ((pendings g ! p)\<lparr>uri := u\<rparr>), r)"
    by (simp add: pendingAttestation_decode_def)
next
  fix p :: nat and c :: "byte list" and m :: "64 word" and r :: "byte list"
  assume "readVarUint c = Inr (m, r) \<and> 1000 < unat m"
  then have "readVarBytes readVarUint 0 pendingAttestationMaxUriLength c = Inl PayloadTooLarge"
    by (simp add: readVarBytes_too_large pendingAttestationMaxUriLength_def)
  then show "pendingAttestation_decode readVarUint p c g = (Err PayloadTooLarge, g)"
    by (simp add: pendingAttestation_decode_def)
qed

text \<open>
  The URI \<^verbatim>\<open>abc\<close>; a URI of exactly 1000 bytes; the decode on a sub-stream with a byte
  after the URI; and a declared URI length of 1001 (\<^verbatim>\<open>e9 07\<close>).
\<close>

theorem pending_uri_witness:
  "observe (ParseAttestation readVarUint_leb128
      (pendingAttestationTag @ [0x04, 0x03, 0x61, 0x62, 0x63]) init_globals)
     = Ok (PendingValue \<lparr>tag = pendingAttestationTag, uri = [0x61, 0x62, 0x63]\<rparr>, []) \<and>
   observe (ParseAttestation readVarUint_leb128
      (pendingAttestationTag @ [0xea, 0x07] @ [0xe8, 0x07] @ replicate 1000 0x61) init_globals)
     = Ok (PendingValue \<lparr>tag = pendingAttestationTag, uri = replicate 1000 0x61\<rparr>, []) \<and>
   observe (pendingAttestation_decode readVarUint_leb128 0 [0x03, 0x61, 0x62, 0x63, 0x2a]
      init_globals)
     = Ok (PendingValue ((pendings init_globals ! 0)\<lparr>uri := [0x61, 0x62, 0x63]\<rparr>), [0x2a]) \<and>
   pendingAttestation_decode readVarUint_leb128 0 [0xe9, 0x07] init_globals
     = (Err PayloadTooLarge, init_globals)"
proof -
  note inst = pending_uri [where readVarUint = readVarUint_leb128 and g = init_globals]
  have p1: "reachable readVarUint_leb128 init_globals \<and>
      readVarUint_leb128 [0x04, 0x03, 0x61, 0x62, 0x63] = Inr (4, [0x03, 0x61, 0x62, 0x63] @ []) \<and>
      unat (4 :: 64 word) = length [0x03, 0x61, 0x62, 0x63 :: byte] \<and>
      length [0x03, 0x61, 0x62, 0x63 :: byte] \<le> 8192 \<and>
      readVarUint_leb128 [0x03, 0x61, 0x62, 0x63] = Inr (3, [0x61, 0x62, 0x63]) \<and>
      unat (3 :: 64 word) = length [0x61, 0x62, 0x63 :: byte] \<and>
      length [0x61, 0x62, 0x63 :: byte] \<le> 1000"
    by (simp add: readVarUint_leb128_def reachable_init)
  have p2: "reachable readVarUint_leb128 init_globals \<and>
      readVarUint_leb128 ([0xea, 0x07] @ [0xe8, 0x07] @ replicate 1000 0x61)
        = Inr (1002, ([0xe8, 0x07] @ replicate 1000 0x61) @ []) \<and>
      unat (1002 :: 64 word) = length ([0xe8, 0x07] @ replicate 1000 (0x61 :: byte)) \<and>
      length ([0xe8, 0x07] @ replicate 1000 (0x61 :: byte)) \<le> 8192 \<and>
      readVarUint_leb128 ([0xe8, 0x07] @ replicate 1000 0x61) = Inr (1000, replicate 1000 0x61) \<and>
      unat (1000 :: 64 word) = length (replicate 1000 (0x61 :: byte)) \<and>
      length (replicate 1000 (0x61 :: byte)) \<le> 1000"
    by (simp add: readVarUint_leb128_def reachable_init)
  have p3: "0 < length (pendings init_globals) \<and>
      readVarUint_leb128 [0x03, 0x61, 0x62, 0x63, 0x2a] = Inr (3, [0x61, 0x62, 0x63] @ [0x2a]) \<and>
      unat (3 :: 64 word) = length [0x61, 0x62, 0x63 :: byte] \<and>
      length [0x61, 0x62, 0x63 :: byte] \<le> 1000"
    by (simp add: readVarUint_leb128_def init_globals_def newPendingAttestation_def
        newBitcoinAttestation_def)
  have p4: "readVarUint_leb128 [0xe9, 0x07] = Inr (1001, []) \<and> 1000 < unat (1001 :: 64 word)"
    by (simp add: readVarUint_leb128_def)
  from inst p1
  have a: "observe (ParseAttestation readVarUint_leb128
      (pendingAttestationTag @ [0x04, 0x03, 0x61, 0x62, 0x63]) init_globals)
     = Ok (PendingValue \<lparr>tag = pendingAttestationTag, uri = [0x61, 0x62, 0x63]\<rparr>, [])"
    by blast
  from inst p2
  have b: "observe (ParseAttestation readVarUint_leb128
      (pendingAttestationTag @ [0xea, 0x07] @ [0xe8, 0x07] @ replicate 1000 0x61) init_globals)
     = Ok (PendingValue \<lparr>tag = pendingAttestationTag, uri = replicate 1000 0x61\<rparr>, [])"
    by blast
  from inst p3
  have c: "observe (pendingAttestation_decode readVarUint_leb128 0 [0x03, 0x61, 0x62, 0x63, 0x2a]
      init_globals)
     = Ok (PendingValue ((pendings init_globals ! 0)\<lparr>uri := [0x61, 0x62, 0x63]\<rparr>), [0x2a])"
    by blast
  from inst p4
  have d: "pendingAttestation_decode readVarUint_leb128 0 [0xe9, 0x07] init_globals
     = (Err PayloadTooLarge, init_globals)"
    by blast
  from a b c d show ?thesis by simp
qed

text \<open>
  C5. A bitcoin record whose payload is exactly one variable-length integer \<open>h\<close>, any
  64-bit value, decodes to a \<^verbatim>\<open>bitcoinAttestation\<close> whose \<^verbatim>\<open>height\<close> is \<open>h\<close> and whose
  tag is the bitcoin constant. The decode reads that one field: called through any valid
  pointer, it returns a copy of the struct behind the pointer with \<^verbatim>\<open>height\<close> set to \<open>h\<close>
  and leaves the context where the integer reader left it.
\<close>

theorem bitcoin_height:
  "(\<forall>s n payload rest h.
      reachable readVarUint g \<and>
      readVarUint s = Inr (n, payload @ rest) \<and> unat n = length payload \<and>
      length payload \<le> 8192 \<and>
      readVarUint payload = Inr (h, [])
      \<longrightarrow> observe (ParseAttestation readVarUint (bitcoinAttestationTag @ s) g)
            = Ok (BitcoinValue \<lparr>tag = bitcoinAttestationTag, height = h\<rparr>, rest)) \<and>
   (\<forall>b c h c'.
      b < length (bitcoins g) \<and> readVarUint c = Inr (h, c')
      \<longrightarrow> observe (bitcoinAttestation_decode readVarUint b c g)
            = Ok (BitcoinValue ((bitcoins g ! b)\<lparr>height := h\<rparr>), c'))"
proof (intro conjI allI impI)
  fix s :: "byte list" and n :: "64 word" and payload rest :: "byte list" and h :: "64 word"
  assume a: "reachable readVarUint g \<and>
      readVarUint s = Inr (n, payload @ rest) \<and> unat n = length payload \<and>
      length payload \<le> 8192 \<and>
      readVarUint payload = Inr (h, [])"
  then have ri: "registry_intact g" by (blast intro: reachable_registry_intact)
  from a tags_differ
  have lp: "ParseAttestation_loop readVarUint bitcoinAttestationTag payload (attestations g) g
      = (Some (Ok (BitcoinPtr (length (bitcoins g)))),
         g\<lparr>bitcoins := bitcoins g @ [\<lparr>tag = bitcoinAttestationTag, height = h\<rparr>]\<rparr>)"
    by (simp add: loop_intact [OF ri] bitcoinAttestation_decode_proto [OF ri] assertEOF_def)
  from a have "ParseAttestation readVarUint (bitcoinAttestationTag @ s) g
      = (Ok (BitcoinPtr (length (bitcoins g)), rest),
         g\<lparr>bitcoins := bitcoins g @ [\<lparr>tag = bitcoinAttestationTag, height = h\<rparr>]\<rparr>)"
    by (simp add: lp ParseAttestation_record [where rv = readVarUint and s = s and n = n,
          OF length_bitcoinAttestationTag])
  then show "observe (ParseAttestation readVarUint (bitcoinAttestationTag @ s) g)
      = Ok (BitcoinValue \<lparr>tag = bitcoinAttestationTag, height = h\<rparr>, rest)"
    by simp
next
  fix b :: nat and c :: "byte list" and h :: "64 word" and c' :: "byte list"
  assume "b < length (bitcoins g) \<and> readVarUint c = Inr (h, c')"
  then show "observe (bitcoinAttestation_decode readVarUint b c g)
      = Ok (BitcoinValue ((bitcoins g ! b)\<lparr>height := h\<rparr>), c')"
    by (simp add: bitcoinAttestation_decode_def)
qed

text \<open>
  The heights 0, 1000 (the scenario of section 8 of the specification) and
  \<open>2^64 - 1\<close>, the largest 64-bit value; and the decode on a sub-stream with a byte after
  the integer.
\<close>

theorem bitcoin_height_witness:
  "observe (ParseAttestation readVarUint_leb128
      (bitcoinAttestationTag @ [0x01, 0x00]) init_globals)
     = Ok (BitcoinValue \<lparr>tag = bitcoinAttestationTag, height = 0\<rparr>, []) \<and>
   observe (ParseAttestation readVarUint_leb128
      (bitcoinAttestationTag @ [0x02, 0xe8, 0x07]) init_globals)
     = Ok (BitcoinValue \<lparr>tag = bitcoinAttestationTag, height = 1000\<rparr>, []) \<and>
   observe (ParseAttestation readVarUint_leb128
      (bitcoinAttestationTag
         @ [0x0a, 0xff, 0xff, 0xff, 0xff, 0xff, 0xff, 0xff, 0xff, 0xff, 0x01]) init_globals)
     = Ok (BitcoinValue \<lparr>tag = bitcoinAttestationTag, height = 0xffffffffffffffff\<rparr>, []) \<and>
   observe (bitcoinAttestation_decode readVarUint_leb128 0 [0xe8, 0x07, 0x2a] init_globals)
     = Ok (BitcoinValue ((bitcoins init_globals ! 0)\<lparr>height := 1000\<rparr>), [0x2a])"
proof -
  note inst = bitcoin_height [where readVarUint = readVarUint_leb128 and g = init_globals]
  have p1: "reachable readVarUint_leb128 init_globals \<and>
      readVarUint_leb128 [0x01, 0x00] = Inr (1, [0x00] @ []) \<and>
      unat (1 :: 64 word) = length [0x00 :: byte] \<and>
      length [0x00 :: byte] \<le> 8192 \<and>
      readVarUint_leb128 [0x00] = Inr (0, [])"
    by (simp add: readVarUint_leb128_def reachable_init)
  have p2: "reachable readVarUint_leb128 init_globals \<and>
      readVarUint_leb128 [0x02, 0xe8, 0x07] = Inr (2, [0xe8, 0x07] @ []) \<and>
      unat (2 :: 64 word) = length [0xe8, 0x07 :: byte] \<and>
      length [0xe8, 0x07 :: byte] \<le> 8192 \<and>
      readVarUint_leb128 [0xe8, 0x07] = Inr (1000, [])"
    by (simp add: readVarUint_leb128_def reachable_init)
  have p3: "reachable readVarUint_leb128 init_globals \<and>
      readVarUint_leb128 [0x0a, 0xff, 0xff, 0xff, 0xff, 0xff, 0xff, 0xff, 0xff, 0xff, 0x01]
        = Inr (10, [0xff, 0xff, 0xff, 0xff, 0xff, 0xff, 0xff, 0xff, 0xff, 0x01] @ []) \<and>
      unat (10 :: 64 word)
        = length [0xff, 0xff, 0xff, 0xff, 0xff, 0xff, 0xff, 0xff, 0xff, 0x01 :: byte] \<and>
      length [0xff, 0xff, 0xff, 0xff, 0xff, 0xff, 0xff, 0xff, 0xff, 0x01 :: byte] \<le> 8192 \<and>
      readVarUint_leb128 [0xff, 0xff, 0xff, 0xff, 0xff, 0xff, 0xff, 0xff, 0xff, 0x01]
        = Inr (0xffffffffffffffff, [])"
    by (simp add: readVarUint_leb128_def reachable_init)
  have p4: "0 < length (bitcoins init_globals) \<and>
      readVarUint_leb128 [0xe8, 0x07, 0x2a] = Inr (1000, [0x2a])"
    by (simp add: readVarUint_leb128_def init_globals_def newPendingAttestation_def
        newBitcoinAttestation_def)
  from inst p1
  have a: "observe (ParseAttestation readVarUint_leb128
      (bitcoinAttestationTag @ [0x01, 0x00]) init_globals)
     = Ok (BitcoinValue \<lparr>tag = bitcoinAttestationTag, height = 0\<rparr>, [])"
    by blast
  from inst p2
  have b: "observe (ParseAttestation readVarUint_leb128
      (bitcoinAttestationTag @ [0x02, 0xe8, 0x07]) init_globals)
     = Ok (BitcoinValue \<lparr>tag = bitcoinAttestationTag, height = 1000\<rparr>, [])"
    by blast
  from inst p3
  have c: "observe (ParseAttestation readVarUint_leb128
      (bitcoinAttestationTag
         @ [0x0a, 0xff, 0xff, 0xff, 0xff, 0xff, 0xff, 0xff, 0xff, 0xff, 0x01]) init_globals)
     = Ok (BitcoinValue \<lparr>tag = bitcoinAttestationTag, height = 0xffffffffffffffff\<rparr>, [])"
    by blast
  from inst p4
  have d: "observe (bitcoinAttestation_decode readVarUint_leb128 0 [0xe8, 0x07, 0x2a] init_globals)
     = Ok (BitcoinValue ((bitcoins init_globals ! 0)\<lparr>height := 1000\<rparr>), [0x2a])"
    by blast
  from a b c d show ?thesis by simp
qed

text \<open>
  C6. In every memory the program can be in, the registry is the pending prototype and
  then the bitcoin prototype, and a prototype matches a tag exactly when the tag equals
  its constant, byte for byte and in length: the match methods compare the stored tag
  with the given one for equality, with no wildcard and no prefix. The scan takes the
  first element that matches and never looks at the ones after it; when none matches it
  falls through. The two constants differ, so every record selects exactly one of the
  three variants: a returned pending or bitcoin attestation means the tag was that
  constant, and an unknown one means the tag was neither.
\<close>

theorem variant_selection:
  "(reachable readVarUint g \<longrightarrow>
      attestations g = [PendingPtr 0, BitcoinPtr 0] \<and>
      load g (PendingPtr 0) = PendingValue \<lparr>tag = pendingAttestationTag, uri = []\<rparr> \<and>
      load g (BitcoinPtr 0) = BitcoinValue \<lparr>tag = bitcoinAttestationTag, height = 0\<rparr> \<and>
      attestation_match (PendingPtr 0) t g = Ok (t = pendingAttestationTag) \<and>
      attestation_match (BitcoinPtr 0) t g = Ok (t = bitcoinAttestationTag) \<and>
      (\<forall>v rest. observe (ParseAttestation readVarUint ctx g) = Ok (v, rest) \<longrightarrow>
         (case v of
            PendingValue p \<Rightarrow>
              take 8 ctx = pendingAttestationTag \<and> tag p = pendingAttestationTag
          | BitcoinValue b \<Rightarrow>
              take 8 ctx = bitcoinAttestationTag \<and> tag b = bitcoinAttestationTag
          | UnknownValue ut ub \<Rightarrow>
              ut = take 8 ctx \<and> ut \<noteq> pendingAttestationTag \<and> ut \<noteq> bitcoinAttestationTag
          | NilValue \<Rightarrow> False))) \<and>
   pendingAttestationTag \<noteq> bitcoinAttestationTag \<and>
   (pendingAttestation_match p t \<longleftrightarrow> tag p = t) \<and>
   (bitcoinAttestation_match b t \<longleftrightarrow> tag b = t) \<and>
   (\<forall>pre a post.
      (\<forall>x \<in> set pre. attestation_match x t g = Ok False) \<and> attestation_match a t g = Ok True
      \<longrightarrow> ParseAttestation_loop readVarUint t c (pre @ a # post) g
            = ParseAttestation_loop readVarUint t c [a] g) \<and>
   (\<forall>as. (\<forall>x \<in> set as. attestation_match x t g = Ok False)
      \<longrightarrow> ParseAttestation_loop readVarUint t c as g = (None, g))"
proof (intro conjI allI impI)
  assume r: "reachable readVarUint g"
  then have ri: "registry_intact g" by (rule reachable_registry_intact)
  then show "attestations g = [PendingPtr 0, BitcoinPtr 0]"
    and "load g (PendingPtr 0) = PendingValue \<lparr>tag = pendingAttestationTag, uri = []\<rparr>"
    and "load g (BitcoinPtr 0) = BitcoinValue \<lparr>tag = bitcoinAttestationTag, height = 0\<rparr>"
    by (simp_all add: registry_intact_def)
  from ri show "attestation_match (PendingPtr 0) t g = Ok (t = pendingAttestationTag)"
    by (auto simp: registry_intact_def pendingAttestation_match_def baseAttestation_match_def)
  from ri show "attestation_match (BitcoinPtr 0) t g = Ok (t = bitcoinAttestationTag)"
    by (auto simp: registry_intact_def bitcoinAttestation_match_def baseAttestation_match_def)
  fix v rest
  assume "observe (ParseAttestation readVarUint ctx g) = Ok (v, rest)"
  with ri show "case v of
            PendingValue p \<Rightarrow>
              take 8 ctx = pendingAttestationTag \<and> tag p = pendingAttestationTag
          | BitcoinValue b \<Rightarrow>
              take 8 ctx = bitcoinAttestationTag \<and> tag b = bitcoinAttestationTag
          | UnknownValue ut ub \<Rightarrow>
              ut = take 8 ctx \<and> ut \<noteq> pendingAttestationTag \<and> ut \<noteq> bitcoinAttestationTag
          | NilValue \<Rightarrow> False"
    by (rule ParseAttestation_selects)
next
  show "pendingAttestationTag \<noteq> bitcoinAttestationTag" by (rule tags_differ)
next
  show "pendingAttestation_match p t \<longleftrightarrow> tag p = t"
    by (simp add: pendingAttestation_match_def baseAttestation_match_def)
next
  show "bitcoinAttestation_match b t \<longleftrightarrow> tag b = t"
    by (simp add: bitcoinAttestation_match_def baseAttestation_match_def)
next
  fix pre a post
  assume h: "(\<forall>x \<in> set pre. attestation_match x t g = Ok False) \<and>
      attestation_match a t g = Ok True"
  then have "ParseAttestation_loop readVarUint t c (pre @ a # post) g
      = ParseAttestation_loop readVarUint t c (a # post) g"
    by (simp add: loop_skip)
  also from h have "\<dots> = ParseAttestation_loop readVarUint t c [a] g"
    by (simp add: loop_first)
  finally show "ParseAttestation_loop readVarUint t c (pre @ a # post) g
      = ParseAttestation_loop readVarUint t c [a] g" .
next
  fix as
  assume "\<forall>x \<in> set as. attestation_match x t g = Ok False"
  then show "ParseAttestation_loop readVarUint t c as g = (None, g)"
    using loop_skip [where pre = as and as = "[]" and t = t and g = g and rv = readVarUint
        and c = c]
    by simp
qed

text \<open>
  The pending constant matches the pending prototype only; the constant without its
  last byte and the constant with one more byte match nothing. In a registry where the
  pending prototype stands between a bitcoin prototype and an \<^verbatim>\<open>unknownAttestation\<close>,
  the scan of a pending tag passes the first, takes the second and never reaches the
  third.
\<close>

theorem variant_selection_witness:
  "attestations init_globals = [PendingPtr 0, BitcoinPtr 0] \<and>
   attestation_match (PendingPtr 0) pendingAttestationTag init_globals = Ok True \<and>
   attestation_match (BitcoinPtr 0) pendingAttestationTag init_globals = Ok False \<and>
   attestation_match (PendingPtr 0) (butlast pendingAttestationTag) init_globals = Ok False \<and>
   attestation_match (PendingPtr 0) (pendingAttestationTag @ [0x00]) init_globals = Ok False \<and>
   take 8 (pendingAttestationTag @ [0x04, 0x03, 0x61, 0x62, 0x63]) = pendingAttestationTag \<and>
   ParseAttestation_loop readVarUint_leb128 pendingAttestationTag [0x00]
       ([BitcoinPtr 0] @ PendingPtr 0 # [UnknownAttestation [] []]) init_globals
     = ParseAttestation_loop readVarUint_leb128 pendingAttestationTag [0x00]
         [PendingPtr 0] init_globals \<and>
   ParseAttestation_loop readVarUint_leb128 [0xff] [0x00] [PendingPtr 0, BitcoinPtr 0]
       init_globals
     = (None, init_globals)"
proof -
  let ?ctx = "pendingAttestationTag @ [0x04, 0x03, 0x61, 0x62, 0x63]"
  note inst = variant_selection [where readVarUint = readVarUint_leb128 and g = init_globals
      and ctx = ?ctx and c = "[0x00]"]
  note r = reachable_init [where readVarUint = readVarUint_leb128]
  have ob: "observe (ParseAttestation readVarUint_leb128 ?ctx init_globals)
      = Ok (PendingValue \<lparr>tag = pendingAttestationTag, uri = [0x61, 0x62, 0x63]\<rparr>, [])"
    by (simp add: eval_defs)
  have m: "attestation_match (PendingPtr 0) pendingAttestationTag init_globals = Ok True \<and>
      attestation_match (BitcoinPtr 0) pendingAttestationTag init_globals = Ok False"
    using inst [where t = pendingAttestationTag] r by simp
  have a: "attestations init_globals = [PendingPtr 0, BitcoinPtr 0]"
    using inst [where t = pendingAttestationTag] r by blast
  have b: "attestation_match (PendingPtr 0) (butlast pendingAttestationTag) init_globals
      = Ok False"
    using inst [where t = "butlast pendingAttestationTag"] r
    by (simp add: pendingAttestationTag_def)
  have c: "attestation_match (PendingPtr 0) (pendingAttestationTag @ [0x00]) init_globals
      = Ok False"
    using inst [where t = "pendingAttestationTag @ [0x00]"] r by simp
  have d: "take 8 ?ctx = pendingAttestationTag"
    using inst [where t = pendingAttestationTag] r ob by fastforce
  have pre: "(\<forall>x \<in> set [BitcoinPtr 0]. attestation_match x pendingAttestationTag init_globals
        = Ok False) \<and>
      attestation_match (PendingPtr 0) pendingAttestationTag init_globals = Ok True"
    using m by simp
  have e: "ParseAttestation_loop readVarUint_leb128 pendingAttestationTag [0x00]
       ([BitcoinPtr 0] @ PendingPtr 0 # [UnknownAttestation [] []]) init_globals
     = ParseAttestation_loop readVarUint_leb128 pendingAttestationTag [0x00]
         [PendingPtr 0] init_globals"
    using inst [where t = pendingAttestationTag] pre by blast
  have none: "\<forall>x \<in> set [PendingPtr 0, BitcoinPtr 0].
      attestation_match x [0xff] init_globals = Ok False"
    using inst [where t = "[0xff]"] r
    by (simp add: pendingAttestationTag_def bitcoinAttestationTag_def)
  have f: "ParseAttestation_loop readVarUint_leb128 [0xff] [0x00] [PendingPtr 0, BitcoinPtr 0]
       init_globals = (None, init_globals)"
    using inst [where t = "[0xff]"] none by blast
  from a m b c d e f show ?thesis by simp
qed

text \<open>
  C8. \<^verbatim>\<open>ParseAttestation\<close> is deterministic: in any two memories the program can be in,
  two runs on the same bytes give the same result, that is the same error, or the same
  attestation value and the same context after the record. Beside advancing the context
  a run has no effect on what existed before it: the registry and every struct allocated
  before the run are unchanged.
\<close>

theorem ParseAttestation_deterministic:
  assumes "reachable readVarUint g1" and "reachable readVarUint g2"
  shows "observe (ParseAttestation readVarUint ctx g1)
       = observe (ParseAttestation readVarUint ctx g2) \<and>
     store_extends g1 (snd (ParseAttestation readVarUint ctx g1))"
proof
  show "observe (ParseAttestation readVarUint ctx g1)
      = observe (ParseAttestation readVarUint ctx g2)"
    using assms by (intro observe_intact reachable_registry_intact)
  show "store_extends g1 (snd (ParseAttestation readVarUint ctx g1))"
    by (rule ParseAttestation_extends)
qed

text \<open>The same pending record read twice, the second time in the memory that the first run left.\<close>

theorem ParseAttestation_deterministic_witness:
  "observe (ParseAttestation readVarUint_leb128
       (pendingAttestationTag @ [0x04, 0x03, 0x61, 0x62, 0x63]) init_globals)
     = observe (ParseAttestation readVarUint_leb128
       (pendingAttestationTag @ [0x04, 0x03, 0x61, 0x62, 0x63])
       (snd (ParseAttestation readVarUint_leb128
          (pendingAttestationTag @ [0x04, 0x03, 0x61, 0x62, 0x63]) init_globals))) \<and>
   store_extends init_globals
     (snd (ParseAttestation readVarUint_leb128
        (pendingAttestationTag @ [0x04, 0x03, 0x61, 0x62, 0x63]) init_globals))"
  by (rule ParseAttestation_deterministic [OF reachable_init reachable_call [OF reachable_init]])

text \<open>
  C9. In every memory the program can be in, the registry holds the pending and the
  bitcoin prototype only, so on no stream does \<^verbatim>\<open>ParseAttestation\<close>, or its scan of the
  registry, panic: the bodies of \<^verbatim>\<open>unknownAttestation.match\<close> and
  \<^verbatim>\<open>unknownAttestation.decode\<close>, which panic, are never run.
\<close>

theorem unknown_methods_unreachable:
  assumes "reachable readVarUint g"
  shows "(\<forall>a \<in> set (attestations g). a = PendingPtr 0 \<or> a = BitcoinPtr 0) \<and>
     (\<forall>t attCtx msg.
        fst (ParseAttestation_loop readVarUint t attCtx (attestations g) g) \<noteq> Some (Panic msg)) \<and>
     (\<forall>msg. fst (ParseAttestation readVarUint ctx g) \<noteq> Panic msg)"
proof (intro conjI allI)
  have ri: "registry_intact g"
    using assms by (rule reachable_registry_intact)
  then show "\<forall>a \<in> set (attestations g). a = PendingPtr 0 \<or> a = BitcoinPtr 0"
    by (simp add: registry_intact_def)
  show "fst (ParseAttestation_loop readVarUint t attCtx (attestations g) g) \<noteq> Some (Panic msg)"
    for t attCtx msg
    by (simp add: loop_intact [OF ri] pendingAttestation_decode_proto [OF ri]
        bitcoinAttestation_decode_proto [OF ri] split: sum.splits prod.splits)
  show "fst (ParseAttestation readVarUint ctx g) \<noteq> Panic msg" for msg
    using ri by (rule ParseAttestation_no_panic)
qed

text \<open>A record with an unknown tag, whose result is an \<^verbatim>\<open>unknownAttestation\<close> and no panic.\<close>

theorem unknown_methods_unreachable_witness:
  "fst (ParseAttestation readVarUint_leb128
      ([0xff, 0xff, 0xff, 0xff, 0xff, 0xff, 0xff, 0xff] @ [0x03, 0x61, 0x62, 0x63]) init_globals)
     \<noteq> Panic ''not implemented'' \<and>
   fst (ParseAttestation_loop readVarUint_leb128 [0xff, 0xff, 0xff, 0xff, 0xff, 0xff, 0xff, 0xff]
      [0x61, 0x62, 0x63] (attestations init_globals) init_globals)
     \<noteq> Some (Panic ''not implemented'')"
  using unknown_methods_unreachable [OF reachable_init [where readVarUint = readVarUint_leb128]]
  by blast

text \<open>
  C10. A call of \<^verbatim>\<open>ParseAttestation\<close>, whether it succeeds or fails, leaves the registry
  list and every struct allocated before the call unchanged; the pending prototype still
  has its tag constant and an empty \<^verbatim>\<open>uri\<close>, the bitcoin prototype its tag constant and
  the \<^verbatim>\<open>height\<close> zero. A returned pointer is to a struct that the call allocated: the copy
  that the decode made, not the prototype. Every later call gives the result that it
  would have given before this one.
\<close>

theorem prototypes_never_mutated:
  assumes "reachable readVarUint g"
  shows "(let g' = snd (ParseAttestation readVarUint ctx g) in
      attestations g' = attestations g \<and>
      prefix (pendings g) (pendings g') \<and>
      prefix (bitcoins g) (bitcoins g') \<and>
      load g (PendingPtr 0) = PendingValue \<lparr>tag = pendingAttestationTag, uri = []\<rparr> \<and>
      load g' (PendingPtr 0) = PendingValue \<lparr>tag = pendingAttestationTag, uri = []\<rparr> \<and>
      load g (BitcoinPtr 0) = BitcoinValue \<lparr>tag = bitcoinAttestationTag, height = 0\<rparr> \<and>
      load g' (BitcoinPtr 0) = BitcoinValue \<lparr>tag = bitcoinAttestationTag, height = 0\<rparr> \<and>
      (\<forall>p c. fst (ParseAttestation readVarUint ctx g) = Ok (PendingPtr p, c)
         \<longrightarrow> p = length (pendings g) \<and> p < length (pendings g')) \<and>
      (\<forall>b c. fst (ParseAttestation readVarUint ctx g) = Ok (BitcoinPtr b, c)
         \<longrightarrow> b = length (bitcoins g) \<and> b < length (bitcoins g')) \<and>
      (\<forall>ctx'. observe (ParseAttestation readVarUint ctx' g')
             = observe (ParseAttestation readVarUint ctx' g)))"
proof -
  define g' where "g' = snd (ParseAttestation readVarUint ctx g)"
  have ri: "registry_intact g"
    using assms by (rule reachable_registry_intact)
  have ext: "store_extends g g'"
    unfolding g'_def by (rule ParseAttestation_extends)
  have ri': "registry_intact g'"
    using ri ext by (rule registry_intact_extends)
  have "attestations g' = attestations g" "prefix (pendings g) (pendings g')"
    "prefix (bitcoins g) (bitcoins g')"
    using ext by (simp_all add: store_extends_def)
  moreover have "load g (PendingPtr 0) = PendingValue \<lparr>tag = pendingAttestationTag, uri = []\<rparr>"
    "load g (BitcoinPtr 0) = BitcoinValue \<lparr>tag = bitcoinAttestationTag, height = 0\<rparr>"
    using ri by (simp_all add: registry_intact_def)
  moreover have "load g' (PendingPtr 0) = PendingValue \<lparr>tag = pendingAttestationTag, uri = []\<rparr>"
    "load g' (BitcoinPtr 0) = BitcoinValue \<lparr>tag = bitcoinAttestationTag, height = 0\<rparr>"
    using ri' by (simp_all add: registry_intact_def)
  moreover have "\<forall>p c. fst (ParseAttestation readVarUint ctx g) = Ok (PendingPtr p, c)
         \<longrightarrow> p = length (pendings g) \<and> p < length (pendings g')"
    unfolding g'_def using ParseAttestation_fresh(1) [OF ri] by blast
  moreover have "\<forall>b c. fst (ParseAttestation readVarUint ctx g) = Ok (BitcoinPtr b, c)
         \<longrightarrow> b = length (bitcoins g) \<and> b < length (bitcoins g')"
    unfolding g'_def using ParseAttestation_fresh(2) [OF ri] by blast
  moreover have "\<forall>ctx'. observe (ParseAttestation readVarUint ctx' g')
             = observe (ParseAttestation readVarUint ctx' g)"
    using observe_intact [OF ri' ri] by blast
  ultimately show ?thesis
    unfolding g'_def [symmetric] by (simp add: Let_def)
qed

text \<open>
  A pending record read in the initial memory: the result is a pointer to the second
  \<^verbatim>\<open>pendingAttestation\<close> struct, and the first, the prototype, is as it was.
\<close>

theorem prototypes_never_mutated_witness:
  "attestations (snd (ParseAttestation readVarUint_leb128
       (pendingAttestationTag @ [0x04, 0x03, 0x61, 0x62, 0x63]) init_globals))
     = attestations init_globals \<and>
   load (snd (ParseAttestation readVarUint_leb128
       (pendingAttestationTag @ [0x04, 0x03, 0x61, 0x62, 0x63]) init_globals)) (PendingPtr 0)
     = PendingValue \<lparr>tag = pendingAttestationTag, uri = []\<rparr> \<and>
   load (snd (ParseAttestation readVarUint_leb128
       (pendingAttestationTag @ [0x04, 0x03, 0x61, 0x62, 0x63]) init_globals)) (BitcoinPtr 0)
     = BitcoinValue \<lparr>tag = bitcoinAttestationTag, height = 0\<rparr> \<and>
   fst (ParseAttestation readVarUint_leb128
       (pendingAttestationTag @ [0x04, 0x03, 0x61, 0x62, 0x63]) init_globals)
     = Ok (PendingPtr 1, []) \<and>
   length (pendings init_globals) = 1"
proof -
  let ?ctx = "pendingAttestationTag @ [0x04, 0x03, 0x61, 0x62, 0x63]"
  note inst = prototypes_never_mutated [OF reachable_init, where readVarUint = readVarUint_leb128
      and ctx = ?ctx, unfolded Let_def]
  have r: "fst (ParseAttestation readVarUint_leb128 ?ctx init_globals) = Ok (PendingPtr 1, [])"
    by (simp add: eval_defs)
  from inst r have "1 = length (pendings init_globals)" by blast
  with inst r show ?thesis by simp
qed

end
